theory Spec2Isabelle
  imports Main "HOL-Library.AList"
begin

section \<open>JavaScript values\<close>

text \<open>
  The server is modelled in its revision with admin requests, reports, bans, moderation and
  WebRTC signaling. It reads every inbound frame with JSON.parse and answers with
  JSON.stringify of an object literal. A parsed value is a \<open>json\<close>. An object is the list
  of its own properties in enumeration order, with distinct keys, as JSON.parse leaves it. A
  number is kept as its String() rendering (the shortest decimal that reads back as the same
  double, \<open>0\<close> for both zeros), which determines its truth value and its equality. A string
  is the list of the bytes of its UTF-8 form; a string with an unpaired surrogate has no such
  form and is outside the model. The value \<open>undefined\<close> (an absent property, an unset
  environment variable) is \<open>None\<close> of an option type, and so is the result of a conversion
  that raises TypeError. \<open>String.prototype.toLowerCase\<close> is a built-in of the runtime and not
  code of the server: every function that calls it takes it as its first argument,
  \<open>toLowerCase\<close>, and what is proved holds for whatever function it is.
\<close>

datatype json =
    JNull
  | JBool bool
  | JNum string
  | JStr string
  | JArr "json list"
  | JObj "(string \<times> json) list"

text \<open>Property read \<open>v.k\<close> on a value that is not null (a read on null raises TypeError,
  which the message handler treats before it reads anything).\<close>

fun get_prop :: "json \<Rightarrow> string \<Rightarrow> json option" where
  "get_prop (JObj fs) k = map_of fs k"
| "get_prop _ k = None"

text \<open>ToBoolean.\<close>

fun truthy :: "json option \<Rightarrow> bool" where
  "truthy None = False"
| "truthy (Some JNull) = False"
| "truthy (Some (JBool b)) = b"
| "truthy (Some (JNum r)) = (r \<noteq> ''0'')"
| "truthy (Some (JStr s)) = (s \<noteq> [])"
| "truthy (Some (JArr _)) = True"
| "truthy (Some (JObj _)) = True"

text \<open>\<open>a || d\<close> where \<open>d\<close> is a literal.\<close>

fun or_js :: "json option \<Rightarrow> json \<Rightarrow> json" where
  "or_js None d = d"
| "or_js (Some v) d = (if truthy (Some v) then v else d)"

text \<open>Strict equality \<open>===\<close> (and the SameValueZero of Array.includes) between a stored value
  and a value of another parse: primitives compare by value, two arrays or objects are
  different references and never equal.\<close>

fun strict_eq :: "json \<Rightarrow> json \<Rightarrow> bool" where
  "strict_eq JNull JNull = True"
| "strict_eq (JBool a) (JBool b) = (a = b)"
| "strict_eq (JNum a) (JNum b) = (a = b)"
| "strict_eq (JStr a) (JStr b) = (a = b)"
| "strict_eq _ _ = False"

definition array_includes :: "json list \<Rightarrow> json \<Rightarrow> bool" where
  "array_includes xs v = list_ex (\<lambda>x. strict_eq x v) xs"

text \<open>The decimal digits of a natural number: String(n) for a count.\<close>

fun digits :: "nat \<Rightarrow> string" where
  "digits n = (if n < 10 then [char_of (48 + n)]
               else digits (n div 10) @ [char_of (48 + n mod 10)])"

fun join_js :: "string list \<Rightarrow> string" where
  "join_js [] = []"
| "join_js [x] = x"
| "join_js (x # y # r) = x @ '','' @ join_js (y # r)"

text \<open>String(v). An array is its elements joined by commas, null elements being empty. An
  object of JSON.parse has no callable property of its own: with an own property toString
  the conversion finds no method that returns a primitive and raises TypeError, without one
  it is the inherited \<open>[object Object]\<close>.\<close>

fun String_js :: "json \<Rightarrow> string option" where
  "String_js JNull = Some ''null''"
| "String_js (JBool b) = Some (if b then ''true'' else ''false'')"
| "String_js (JNum r) = Some r"
| "String_js (JStr s) = Some s"
| "String_js (JArr xs) =
     map_option join_js (those (map (\<lambda>x. if x = JNull then Some [] else String_js x) xs))"
| "String_js (JObj fs) =
     (if ''toString'' \<in> set (map fst fs) then None else Some ''[object Object]'')"

fun startsWith :: "string \<Rightarrow> string \<Rightarrow> bool" where
  "startsWith s [] = True"
| "startsWith [] (c # w) = False"
| "startsWith (d # s) (c # w) = (d = c \<and> startsWith s w)"

text \<open>\<open>s.includes(w)\<close>: \<open>w\<close> occurs in \<open>s\<close> as a contiguous block.\<close>

fun includes_js :: "string \<Rightarrow> string \<Rightarrow> bool" where
  "includes_js [] w = (w = [])"
| "includes_js (c # s) w = (startsWith (c # s) w \<or> includes_js s w)"


section \<open>Server state\<close>

text \<open>
  The global variables of server.js and the part of the ws transport they read. A socket
  object is named by the userId the connection handler stores on it (\<open>socket.userId = userId\<close>);
  generateId is taken to return an id that no earlier socket carries. The waiting slot
  \<open>{ id, socket }\<close> and a table entry \<open>{ socket, partnerId }\<close> always hold the socket of their
  own id, so the slot is the id and an entry is the partner's id. \<open>sockets\<close> keeps every
  accepted socket in order of arrival; \<open>wss.clients\<close> is those whose close event has not
  been emitted. \<open>sent\<close> lists the calls of \<open>socket.send\<close> in order: the receiving socket and
  the object given to JSON.stringify. Writing reports.json and bans.json has no effect on
  the state.
\<close>

datatype ready_state = CONNECTING | OPEN | CLOSING | CLOSED

record sock =
  ip :: string
  readyState :: ready_state
  listening :: bool

record server =
  ADMIN_KEY :: "string option"
  BAD_WORDS :: "string list"
  reports :: "json list"
  bans_ips :: "json list"
  bans_userIds :: "json list"
  waitingUser :: "string option"
  activeConnections :: "(string \<times> string) list"
  sockets :: "(string \<times> sock) list"
  sent :: "(string \<times> json) list"

definition wss_clients :: "server \<Rightarrow> (string \<times> sock) list" where
  "wss_clients s = filter (\<lambda>(h, k). readyState k \<noteq> CLOSED) (sockets s)"

definition readyState_of :: "server \<Rightarrow> string \<Rightarrow> ready_state" where
  "readyState_of s h = (case map_of (sockets s) h of Some k \<Rightarrow> readyState k | None \<Rightarrow> CLOSED)"

definition ip_of :: "server \<Rightarrow> string \<Rightarrow> string" where
  "ip_of s h = (case map_of (sockets s) h of Some k \<Rightarrow> ip k | None \<Rightarrow> [])"

text \<open>An object literal given to JSON.stringify: a property whose value is undefined is
  left out.\<close>

definition obj :: "(string \<times> json option) list \<Rightarrow> json" where
  "obj fs = JObj (List.map_filter (\<lambda>(k, v). map_option (Pair k) v) fs)"

definition send :: "string \<Rightarrow> json \<Rightarrow> server \<Rightarrow> server" where
  "send h m s = s\<lparr>sent := sent s @ [(h, m)]\<rparr>"

text \<open>\<open>socket.close()\<close> of ws: an open socket becomes CLOSING at once; its close event (and
  CLOSED) come later, as an event of their own.\<close>

definition close :: "string \<Rightarrow> server \<Rightarrow> server" where
  "close h s =
     (case map_of (sockets s) h of
        None \<Rightarrow> s
      | Some k \<Rightarrow>
          if readyState k = OPEN
          then s\<lparr>sockets := AList.update h (k\<lparr>readyState := CLOSING\<rparr>) (sockets s)\<rparr>
          else s)"

section \<open>Moderation filter\<close>

fun dedup :: "string list \<Rightarrow> string list" where
  "dedup [] = []"
| "dedup (x # xs) = x # dedup (filter (\<lambda>y. y \<noteq> x) xs)"

text \<open>loadBadWordsSet, from the value of \<open>data.words\<close>; \<open>None\<close> when a String()
  conversion raises.\<close>

definition loadBadWordsSet :: "(string \<Rightarrow> string) \<Rightarrow> json option \<Rightarrow> string list option" where
  "loadBadWordsSet toLowerCase words =
     (case words of
        Some (JArr ws) \<Rightarrow>
          map_option (\<lambda>strs. dedup (map toLowerCase strs)) (those (map String_js ws))
      | _ \<Rightarrow> Some [])"

fun bad_word_loop :: "string \<Rightarrow> string list \<Rightarrow> bool" where
  "bad_word_loop lower [] = False"
| "bad_word_loop lower (w # ws) =
     (if w \<noteq> [] \<and> includes_js lower w then True else bad_word_loop lower ws)"

text \<open>containsBadWord; \<open>None\<close> when \<open>String(text)\<close> raises.\<close>

definition containsBadWord ::
  "(string \<Rightarrow> string) \<Rightarrow> string list \<Rightarrow> json option \<Rightarrow> bool option" where
  "containsBadWord toLowerCase bad text =
     (case text of
        None \<Rightarrow> Some False
      | Some v \<Rightarrow>
          if \<not> truthy (Some v) then Some False
          else (case String_js v of
                  None \<Rightarrow> None
                | Some str \<Rightarrow> Some (bad_word_loop (toLowerCase str) bad)))"

section \<open>Matchmaking and relay\<close>

definition findPartner :: "string \<Rightarrow> server \<Rightarrow> server" where
  "findPartner userId s =
     (if map_of (activeConnections s) userId \<noteq> None then s
      else
        (case waitingUser s of
           None \<Rightarrow>
             send userId (obj [(''type'', Some (JStr ''searching''))])
               (s\<lparr>waitingUser := Some userId\<rparr>)
         | Some partnerId \<Rightarrow>
             if partnerId = userId then
               send userId (obj [(''type'', Some (JStr ''searching''))])
                 (s\<lparr>waitingUser := Some userId\<rparr>)
             else if readyState_of s partnerId \<noteq> OPEN then
               send userId (obj [(''type'', Some (JStr ''searching''))])
                 (s\<lparr>waitingUser := Some userId\<rparr>)
             else
               (let s1 = s\<lparr>activeConnections :=
                            AList.update partnerId userId
                              (AList.update userId partnerId (activeConnections s))\<rparr>;
                    s2 = send userId
                           (obj [(''type'', Some (JStr ''partner_found'')),
                                 (''partnerId'', Some (JStr partnerId))]) s1;
                    s3 = send partnerId
                           (obj [(''type'', Some (JStr ''partner_found'')),
                                 (''partnerId'', Some (JStr userId))]) s2
                in s3\<lparr>waitingUser := None\<rparr>)))"

text \<open>The three relay functions share their guard: the sender has an entry with a non-empty
  partnerId, the partner has an entry, and the partner's socket is OPEN.\<close>

definition sendToPartner :: "string \<Rightarrow> json option \<Rightarrow> server \<Rightarrow> server" where
  "sendToPartner userId text s =
     (case map_of (activeConnections s) userId of
        None \<Rightarrow> s
      | Some partnerId \<Rightarrow>
          if partnerId = [] then s
          else if map_of (activeConnections s) partnerId \<noteq> None
                  \<and> readyState_of s partnerId = OPEN
          then send partnerId (obj [(''type'', Some (JStr ''message'')), (''text'', text)]) s
          else s)"

definition notifyTyping :: "string \<Rightarrow> json option \<Rightarrow> server \<Rightarrow> server" where
  "notifyTyping userId isTyping s =
     (case map_of (activeConnections s) userId of
        None \<Rightarrow> s
      | Some partnerId \<Rightarrow>
          if partnerId = [] then s
          else if map_of (activeConnections s) partnerId \<noteq> None
                  \<and> readyState_of s partnerId = OPEN
          then send partnerId (obj [(''type'', Some (JStr ''typing'')), (''isTyping'', isTyping)]) s
          else s)"

text \<open>forwardToPartner, on the property list of the message object.
  \<open>Object.assign({}, message, { from: userId })\<close> sets every own property of the message
  on a fresh object: a property named \<open>__proto__\<close> goes to the inherited setter and is no
  own property of the result; \<open>from\<close> is overwritten in place or added last.\<close>

definition forwardToPartner :: "string \<Rightarrow> (string \<times> json) list \<Rightarrow> server \<Rightarrow> server" where
  "forwardToPartner userId message s =
     (case map_of (activeConnections s) userId of
        None \<Rightarrow> s
      | Some partnerId \<Rightarrow>
          if partnerId = [] then s
          else if map_of (activeConnections s) partnerId \<noteq> None
                  \<and> readyState_of s partnerId = OPEN
          then send partnerId
                 (JObj (AList.update ''from'' (JStr userId)
                          (filter (\<lambda>(k, v). k \<noteq> ''__proto__'') message))) s
          else s)"

definition disconnectPair :: "string \<Rightarrow> server \<Rightarrow> server" where
  "disconnectPair userId s =
     (case map_of (activeConnections s) userId of
        Some partnerId \<Rightarrow>
          if partnerId \<noteq> [] then
            (let s1 = (if map_of (activeConnections s) partnerId \<noteq> None
                          \<and> readyState_of s partnerId = OPEN
                       then (send partnerId (obj [(''type'', Some (JStr ''partner_disconnected''))]) s)
                              \<lparr>activeConnections := AList.delete partnerId (activeConnections s)\<rparr>
                       else s)
             in s1\<lparr>activeConnections := AList.delete userId (activeConnections s1)\<rparr>)
          else if waitingUser s = Some userId then s\<lparr>waitingUser := None\<rparr> else s
      | None \<Rightarrow> if waitingUser s = Some userId then s\<lparr>waitingUser := None\<rparr> else s)"

definition handleDisconnection :: "string \<Rightarrow> server \<Rightarrow> server" where
  "handleDisconnection userId s =
     disconnectPair userId (if waitingUser s = Some userId then s\<lparr>waitingUser := None\<rparr> else s)"

section \<open>Report log\<close>

text \<open>\<open>reports.unshift(e); if (reports.length > cap) reports.pop();\<close>\<close>

definition unshift_pop :: "nat \<Rightarrow> json \<Rightarrow> json list \<Rightarrow> json list" where
  "unshift_pop cap e rs = (if length (e # rs) > cap then butlast (e # rs) else e # rs)"

section \<open>Connection handler\<close>

definition on_connection :: "string \<Rightarrow> string \<Rightarrow> server \<Rightarrow> server" where
  "on_connection userId clientIp s0 =
     (let s = s0\<lparr>sockets := sockets s0
                   @ [(userId, \<lparr>ip = clientIp, readyState = OPEN, listening = False\<rparr>)]\<rparr>
      in if array_includes (bans_userIds s) (JStr userId)
            \<or> array_includes (bans_ips s) (JStr clientIp)
         then close userId
                (send userId (obj [(''type'', Some (JStr ''banned'')),
                                   (''reason'', Some (JStr ''You are banned.''))]) s)
         else (let s1 = send userId (obj [(''type'', Some (JStr ''connected'')),
                                          (''userId'', Some (JStr userId))]) s
               in s1\<lparr>sockets := AList.update userId
                                    \<lparr>ip = clientIp, readyState = OPEN, listening = True\<rparr>
                                    (sockets s1)\<rparr>))"

text \<open>\<open>msg.adminKey === process.env.ADMIN_KEY\<close>: an environment variable is a string or
  undefined.\<close>

definition authorized :: "json \<Rightarrow> server \<Rightarrow> bool" where
  "authorized msg s =
     (case get_prop msg ''adminKey'' of
        None \<Rightarrow> ADMIN_KEY s = None
      | Some (JStr k) \<Rightarrow> ADMIN_KEY s = Some k
      | Some _ \<Rightarrow> False)"

definition warning_text :: string where
  "warning_text = CHR 0xE2 # CHR 0x9A # CHR 0xA0
                  # '' Your message contained harmful language and was not sent.''"

definition auto_report :: "string \<Rightarrow> string \<Rightarrow> json \<Rightarrow> server \<Rightarrow> json" where
  "auto_report now userId text s =
     JObj [(''reporterId'', JStr userId),
           (''reportedId'',
              (case map_of (activeConnections s) userId of
                 None \<Rightarrow> JNull
               | Some partnerId \<Rightarrow> or_js (Some (JStr partnerId)) JNull)),
           (''reportedIp'',
              (case map_of (activeConnections s) userId of
                 None \<Rightarrow> JNull
               | Some partnerId \<Rightarrow> or_js (Some (JStr (ip_of s userId))) JNull)),
           (''reason'', JStr ''Auto moderation: toxic message''),
           (''message'', text),
           (''time'', JStr now)]"

definition user_report :: "string \<Rightarrow> string \<Rightarrow> json \<Rightarrow> json" where
  "user_report now userId msg =
     JObj [(''reporterId'', JStr userId),
           (''reportedId'', or_js (get_prop msg ''reportedId'') JNull),
           (''reportedIp'', or_js (get_prop msg ''reportedIp'') JNull),
           (''reason'', or_js (get_prop msg ''reason'') (JStr ''user_report'')),
           (''message'', or_js (get_prop msg ''message'') JNull),
           (''time'', JStr now)]"

text \<open>The body of \<open>wss.clients.forEach\<close> in the ban_user case.\<close>

definition drop_ip :: "json \<Rightarrow> string \<Rightarrow> server \<Rightarrow> server" where
  "drop_ip ipv h s =
     (if strict_eq (JStr (ip_of s h)) ipv \<and> readyState_of s h = OPEN
      then close h (send h (obj [(''type'', Some (JStr ''banned'')),
                                 (''reason'', Some (JStr ''Your IP was banned.''))]) s)
      else s)"

definition ban_user :: "string \<Rightarrow> json \<Rightarrow> server \<Rightarrow> server" where
  "ban_user userId msg s =
     (let uid = or_js (get_prop msg ''userId'') JNull;
          ipv = or_js (get_prop msg ''ip'') JNull;
          s1 = (if truthy (Some uid) \<and> \<not> array_includes (bans_userIds s) uid
                then s\<lparr>bans_userIds := bans_userIds s @ [uid]\<rparr> else s);
          s2 = (if truthy (Some ipv) \<and> \<not> array_includes (bans_ips s1) ipv
                then s1\<lparr>bans_ips := bans_ips s1 @ [ipv]\<rparr> else s1);
          s3 = send userId (obj [(''type'', Some (JStr ''ban_ack''))]) s2;
          s4 = (case uid of
                  JStr u \<Rightarrow>
                    if u \<noteq> [] \<and> map_of (activeConnections s3) u \<noteq> None
                    then close u
                           (send u (obj [(''type'', Some (JStr ''banned'')),
                                         (''reason'', Some (JStr ''You were banned by admin.''))]) s3)
                    else s3
                | _ \<Rightarrow> s3)
      in fold (drop_ip ipv) (map fst (wss_clients s4)) s4)"

definition unban_user :: "string \<Rightarrow> json \<Rightarrow> server \<Rightarrow> server" where
  "unban_user userId msg s =
     (let uid = or_js (get_prop msg ''userId'') JNull;
          ipv = or_js (get_prop msg ''ip'') JNull;
          s1 = (if truthy (Some uid)
                then s\<lparr>bans_userIds := filter (\<lambda>x. \<not> strict_eq x uid) (bans_userIds s)\<rparr>
                else s);
          s2 = (if truthy (Some ipv)
                then s1\<lparr>bans_ips := filter (\<lambda>x. \<not> strict_eq x ipv) (bans_ips s1)\<rparr>
                else s1)
      in send userId (obj [(''type'', Some (JStr ''unban_ack''))]) s2)"

text \<open>The message handler of the socket of \<open>userId\<close>, on the parsed frame \<open>msg\<close>; \<open>now\<close> is
  \<open>new Date().toISOString()\<close>. A null frame raises at \<open>msg.type\<close>, a text that has no
  string form raises in containsBadWord: the handler's catch leaves the state as it is. A
  frame without a known type reaches \<open>default\<close>.\<close>

definition on_message ::
  "(string \<Rightarrow> string) \<Rightarrow> string \<Rightarrow> string \<Rightarrow> json \<Rightarrow> server \<Rightarrow> server" where
  "on_message toLowerCase now userId msg s =
     (if msg = JNull then s
      else if get_prop msg ''type'' = Some (JStr ''find_partner'') then findPartner userId s
      else if get_prop msg ''type'' = Some (JStr ''send_message'') then
        (case get_prop msg ''text'' of
           None \<Rightarrow> s
         | Some text \<Rightarrow>
             if \<not> truthy (Some text) then s
             else
               (case containsBadWord toLowerCase (BAD_WORDS s) (Some text) of
                  None \<Rightarrow> s
                | Some blocked \<Rightarrow>
                    if blocked then
                      (send userId (obj [(''type'', Some (JStr ''warning'')),
                                         (''text'', Some (JStr warning_text))]) s)
                        \<lparr>reports := unshift_pop 1000 (auto_report now userId text s)
                                       (reports s)\<rparr>
                    else sendToPartner userId (Some text) s))
      else if get_prop msg ''type'' = Some (JStr ''typing'') then
        notifyTyping userId (get_prop msg ''isTyping'') s
      else if get_prop msg ''type'' = Some (JStr ''disconnect_chat'') then disconnectPair userId s
      else if get_prop msg ''type'' = Some (JStr ''report_user'') then
        send userId (obj [(''type'', Some (JStr ''report_ack''))])
          (s\<lparr>reports := unshift_pop 5000 (user_report now userId msg) (reports s)\<rparr>)
      else if get_prop msg ''type'' = Some (JStr ''get_user_count'') then
        (if authorized msg s
         then send userId (obj [(''type'', Some (JStr ''user_count'')),
                                (''count'', Some (JNum (digits (length (wss_clients s)))))]) s
         else s)
      else if get_prop msg ''type'' = Some (JStr ''get_reports'') then
        (if authorized msg s
         then send userId (obj [(''type'', Some (JStr ''reports'')),
                                (''reports'', Some (JArr (reports s)))]) s
         else s)
      else if get_prop msg ''type'' = Some (JStr ''get_bans'') then
        (if authorized msg s
         then send userId (obj [(''type'', Some (JStr ''bans'')),
                                (''bannedIPs'', Some (JArr (bans_ips s))),
                                (''bannedUserIds'', Some (JArr (bans_userIds s)))]) s
         else s)
      else if get_prop msg ''type'' = Some (JStr ''ban_user'') then
        (if authorized msg s then ban_user userId msg s else s)
      else if get_prop msg ''type'' = Some (JStr ''unban_user'') then
        (if authorized msg s then unban_user userId msg s else s)
      else if get_prop msg ''type'' = Some (JStr ''video_offer'')
              \<or> get_prop msg ''type'' = Some (JStr ''video_answer'')
              \<or> get_prop msg ''type'' = Some (JStr ''ice_candidate'') then
        (case msg of JObj fs \<Rightarrow> forwardToPartner userId fs s | _ \<Rightarrow> s)
      else s)"

section \<open>Events\<close>

text \<open>
  What the transport delivers, one callback at a time: a new connection with the id drawn
  for it and the client address read from its headers; a frame of a socket, parsed (with
  the time of its handling) or not parseable; the close event and the error event of a
  socket. A frame, close or error of a socket that does not exist, that was closed, or on
  which no handler was registered (it was banned when it connected) runs no code. ws sets
  CLOSED before it emits close and CLOSING before it emits error.
\<close>

datatype event =
    Connection string string
  | Message string string json
  | Unparseable string
  | Close string
  | Error string

definition set_readyState :: "string \<Rightarrow> ready_state \<Rightarrow> server \<Rightarrow> server" where
  "set_readyState h r s =
     (case map_of (sockets s) h of
        None \<Rightarrow> s
      | Some k \<Rightarrow> s\<lparr>sockets := AList.update h (k\<lparr>readyState := r\<rparr>) (sockets s)\<rparr>)"

definition live :: "server \<Rightarrow> string \<Rightarrow> bool" where
  "live s h = (case map_of (sockets s) h of
                 None \<Rightarrow> False
               | Some k \<Rightarrow> readyState k \<noteq> CLOSED \<and> listening k)"

fun step :: "(string \<Rightarrow> string) \<Rightarrow> server \<Rightarrow> event \<Rightarrow> server" where
  "step toLowerCase s (Connection userId clientIp) =
     (if map_of (sockets s) userId \<noteq> None then s else on_connection userId clientIp s)"
| "step toLowerCase s (Message userId now msg) =
     (if live s userId then on_message toLowerCase now userId msg s else s)"
| "step toLowerCase s (Unparseable userId) = s"
| "step toLowerCase s (Close userId) =
     (if live s userId then handleDisconnection userId (set_readyState userId CLOSED s)
      else set_readyState userId CLOSED s)"
| "step toLowerCase s (Error userId) =
     (if live s userId then handleDisconnection userId (close userId s) else s)"

definition run :: "(string \<Rightarrow> string) \<Rightarrow> server \<Rightarrow> event list \<Rightarrow> server" where
  "run toLowerCase s es = fold (\<lambda>e s. step toLowerCase s e) es s"

text \<open>The state after start-up, from the environment, the list that loadBadWordsSet
  returned (the server does not start when it raises) and the two other files.\<close>

definition init :: "string option \<Rightarrow> string list \<Rightarrow> json list \<Rightarrow> json list \<Rightarrow> json list \<Rightarrow> server" where
  "init key bad rs ips userIds =
     \<lparr>ADMIN_KEY = key, BAD_WORDS = bad, reports = rs,
      bans_ips = ips, bans_userIds = userIds, waitingUser = None,
      activeConnections = [], sockets = [], sent = []\<rparr>"

section \<open>The state invariant\<close>

text \<open>The pair table is symmetric: the partner named by an entry has an entry that names the
  owner of the first (the keys of the table are distinct, as those of a Map are).\<close>

definition symmetric :: "(string \<times> string) list \<Rightarrow> bool" where
  "symmetric ac = list_all (\<lambda>(a, b). map_of ac b = Some a) ac"

section \<open>Scenarios\<close>

text \<open>Concrete start-ups, frames and event sequences on which the handlers are evaluated.
  On a string of ASCII characters toLowerCase maps the letters A-Z to a-z and leaves the
  other characters; the scenarios lowercase only such strings and run with that function.\<close>

definition ascii_lower_char :: "char \<Rightarrow> char" where
  "ascii_lower_char c = (let n = (of_char c :: nat) in
                         if 65 \<le> n \<and> n \<le> 90 then char_of (n + 32) else c)"

definition ascii_toLowerCase :: "string \<Rightarrow> string" where
  "ascii_toLowerCase s = map ascii_lower_char s"

definition boot :: server where
  "boot = init (Some ''secret'') [''idiot''] [] [] []"

definition boot_no_key :: server where
  "boot_no_key = init None [''idiot''] [] [] []"

definition find_partner_frame :: json where
  "find_partner_frame = JObj [(''type'', JStr ''find_partner'')]"

definition toxic_frame :: json where
  "toxic_frame = JObj [(''type'', JStr ''send_message''), (''text'', JStr ''You IDIOT!'')]"

definition ban_b_frame :: json where
  "ban_b_frame = JObj [(''type'', JStr ''ban_user''), (''adminKey'', JStr ''secret''),
                       (''userId'', JStr ''b'')]"

definition two_clients :: "event list" where
  "two_clients = [Connection ''a'' ''10.0.0.1'', Connection ''b'' ''10.0.0.2'']"

definition pair_a_b :: "event list" where
  "pair_a_b = two_clients @ [Message ''a'' ''t1'' find_partner_frame,
                             Message ''b'' ''t2'' find_partner_frame]"

definition ban_then_leave :: "event list" where
  "ban_then_leave = pair_a_b @ [Message ''a'' ''t3'' ban_b_frame,
                                Message ''a'' ''t4'' (JObj [(''type'', JStr ''disconnect_chat'')])]"

definition rematch_then_close :: "event list" where
  "rematch_then_close = ban_then_leave @ [Message ''a'' ''t5'' find_partner_frame,
                                          Connection ''c'' ''10.0.0.3'',
                                          Message ''c'' ''t6'' find_partner_frame,
                                          Close ''b'']"

definition a_waits :: "event list" where
  "a_waits = two_clients @ [Message ''a'' ''t1'' find_partner_frame]"

definition ban_ip_frame :: json where
  "ban_ip_frame = JObj [(''type'', JStr ''ban_user''), (''adminKey'', JStr ''secret''),
                        (''ip'', JStr ''10.0.0.1'')]"

definition stale_wait :: "event list" where
  "stale_wait = a_waits @ [Message ''b'' ''t2'' ban_ip_frame]"

definition b_banned :: "event list" where
  "b_banned = pair_a_b @ [Message ''a'' ''t3'' ban_b_frame]"

definition boot_empty_word :: server where
  "boot_empty_word = init (Some ''secret'') [''''] [] [] []"

definition boot_zero_word :: server where
  "boot_zero_word = init (Some ''secret'') [''0''] [] [] []"

definition hello_frame :: json where
  "hello_frame = JObj [(''type'', JStr ''send_message''), (''text'', JStr ''hello'')]"

definition zero_frame :: json where
  "zero_frame = JObj [(''type'', JStr ''send_message''), (''text'', JNum ''0'')]"

definition toxic_array_frame :: json where
  "toxic_array_frame = JObj [(''type'', JStr ''send_message''),
                             (''text'', JArr [JNum ''7'', JNull, JStr ''IDIOTS''])]"

definition full_log :: server where
  "full_log = init (Some ''secret'') [''idiot'']
                (replicate 999 JNull @ [JStr ''oldest'']) [] []"

definition toxic_events :: "event list" where
  "toxic_events = [Connection ''a'' ''10.0.0.1'', Message ''a'' ''t1'' toxic_frame]"

definition report_events :: "event list" where
  "report_events = [Connection ''a'' ''10.0.0.1'',
                    Message ''a'' ''t1'' (JObj [(''type'', JStr ''report_user'')])]"

definition ban_b_no_key_frame :: json where
  "ban_b_no_key_frame = JObj [(''type'', JStr ''ban_user''), (''userId'', JStr ''b'')]"

definition ban_idle_b :: "event list" where
  "ban_idle_b = two_clients @ [Message ''a'' ''t1'' ban_b_frame]"

section \<open>Auxiliary facts\<close>

declare digits.simps [simp del]

lemmas send_defs = send_def obj_def List.map_filter_def

lemmas relay_defs = sendToPartner_def notifyTyping_def forwardToPartner_def

lemma startsWith_iff: "startsWith s w \<longleftrightarrow> (\<exists>q. s = w @ q)"
  by (induction s w rule: startsWith.induct) auto

lemma includes_js_iff: "includes_js s w \<longleftrightarrow> (\<exists>p q. s = p @ w @ q)"
proof (induction s)
  case Nil
  then show ?case by auto
next
  case (Cons c s)
  show ?case
  proof
    assume "includes_js (c # s) w"
    then consider "startsWith (c # s) w" | "includes_js s w" by auto
    then show "\<exists>p q. c # s = p @ w @ q"
    proof cases
      case 1
      then obtain q where "c # s = w @ q" unfolding startsWith_iff by blast
      then have "c # s = [] @ w @ q" by simp
      then show ?thesis by blast
    next
      case 2
      then obtain p q where "s = p @ w @ q" using Cons.IH by blast
      then have "c # s = (c # p) @ w @ q" by simp
      then show ?thesis by blast
    qed
  next
    assume "\<exists>p q. c # s = p @ w @ q"
    then obtain p q where pq: "c # s = p @ w @ q" by blast
    show "includes_js (c # s) w"
    proof (cases p)
      case Nil
      with pq have "startsWith (c # s) w" unfolding startsWith_iff by auto
      then show ?thesis by simp
    next
      case (Cons d p')
      with pq have "s = p' @ w @ q" by simp
      then have "includes_js s w" using Cons.IH by blast
      then show ?thesis by simp
    qed
  qed
qed



lemma set_dedup: "set (dedup xs) = set xs"
  by (induction xs rule: dedup.induct) auto

lemma bad_word_loop_iff:
  "bad_word_loop l ws \<longleftrightarrow> (\<exists>w\<in>set ws. w \<noteq> [] \<and> includes_js l w)"
  by (induction ws) auto

lemma those_map_member:
  "those (map f xs) = Some ys \<Longrightarrow> x \<in> set xs \<Longrightarrow> f x = Some y \<Longrightarrow> y \<in> set ys"
proof (induction xs arbitrary: ys)
  case Nil
  then show ?case by simp
next
  case (Cons a xs)
  then show ?case by (auto split: option.splits)
qed

lemma loadBadWordsSet_member:
  assumes "loadBadWordsSet toLowerCase (Some (JArr ws)) = Some bad"
    and "x \<in> set ws" and "String_js x = Some w"
  shows "toLowerCase w \<in> set bad"
proof -
  obtain strs where strs: "those (map String_js ws) = Some strs"
    and bad: "bad = dedup (map toLowerCase strs)"
    using assms(1) by (auto simp: loadBadWordsSet_def)
  have "w \<in> set strs" using those_map_member [OF strs assms(2,3)] .
  then show ?thesis by (simp add: bad set_dedup)
qed

lemma containsBadWord_loaded:
  assumes "truthy (Some text)" and "String_js text = Some str"
    and "loadBadWordsSet toLowerCase (Some (JArr ws)) = Some bad"
    and "x \<in> set ws" and "String_js x = Some w"
    and "toLowerCase w \<noteq> []"
    and "includes_js (toLowerCase str) (toLowerCase w)"
  shows "containsBadWord toLowerCase bad (Some text) = Some True"
proof -
  have "toLowerCase w \<in> set bad"
    using assms(3,4,5) by (rule loadBadWordsSet_member)
  then have "bad_word_loop (toLowerCase str) bad"
    using assms(6,7) unfolding bad_word_loop_iff by blast
  then show ?thesis using assms(1,2) by (simp add: containsBadWord_def)
qed

lemma unshift_pop_1000:
  "unshift_pop 1000 e rs = (if 1000 \<le> length rs then e # butlast rs else e # rs)"
  by (cases rs) (auto simp: unshift_pop_def)

lemma close_simps:
  "sent (close h s) = sent s" "bans_userIds (close h s) = bans_userIds s"
  "bans_ips (close h s) = bans_ips s" "reports (close h s) = reports s"
  "activeConnections (close h s) = activeConnections s" "waitingUser (close h s) = waitingUser s"
  "ADMIN_KEY (close h s) = ADMIN_KEY s" "BAD_WORDS (close h s) = BAD_WORDS s"
  by (auto simp: close_def split: option.splits)

lemma drop_ip_simps:
  "bans_userIds (drop_ip ipv h s) = bans_userIds s"
  "bans_ips (drop_ip ipv h s) = bans_ips s" "reports (drop_ip ipv h s) = reports s"
  "activeConnections (drop_ip ipv h s) = activeConnections s"
  "waitingUser (drop_ip ipv h s) = waitingUser s"
  by (auto simp: drop_ip_def close_simps send_def)

lemma fold_drop_ip_simps:
  "bans_userIds (fold (drop_ip ipv) hs s) = bans_userIds s"
  "bans_ips (fold (drop_ip ipv) hs s) = bans_ips s"
  "reports (fold (drop_ip ipv) hs s) = reports s"
  "activeConnections (fold (drop_ip ipv) hs s) = activeConnections s"
  "waitingUser (fold (drop_ip ipv) hs s) = waitingUser s"
  by (induction hs arbitrary: s; simp add: drop_ip_simps)+

lemma fold_drop_ip_sent: "\<exists>rest. sent (fold (drop_ip ipv) hs s) = sent s @ rest"
proof (induction hs arbitrary: s)
  case Nil
  then show ?case by simp
next
  case (Cons h hs)
  have "\<exists>r1. sent (drop_ip ipv h s) = sent s @ r1"
    by (simp add: drop_ip_def close_simps send_def)
  then obtain r1 where r1: "sent (drop_ip ipv h s) = sent s @ r1" by blast
  obtain r2 where "sent (fold (drop_ip ipv) hs (drop_ip ipv h s)) = sent (drop_ip ipv h s) @ r2"
    using Cons.IH by blast
  then show ?case using r1 by simp
qed

lemma ban_user_bans_userIds:
  "bans_userIds (ban_user userId msg s)
   = (if truthy (Some (or_js (get_prop msg ''userId'') JNull))
         \<and> \<not> array_includes (bans_userIds s) (or_js (get_prop msg ''userId'') JNull)
      then bans_userIds s @ [or_js (get_prop msg ''userId'') JNull] else bans_userIds s)"
  by (auto simp: ban_user_def Let_def fold_drop_ip_simps close_simps send_def split: json.splits)

lemma ban_user_bans_ips:
  "bans_ips (ban_user userId msg s)
   = (if truthy (Some (or_js (get_prop msg ''ip'') JNull))
         \<and> \<not> array_includes (bans_ips s) (or_js (get_prop msg ''ip'') JNull)
      then bans_ips s @ [or_js (get_prop msg ''ip'') JNull] else bans_ips s)"
  by (auto simp: ban_user_def Let_def fold_drop_ip_simps close_simps send_def split: json.splits)

lemma ban_user_sent:
  "\<exists>rest. sent (ban_user userId msg s)
          = sent s @ (userId, JObj [(''type'', JStr ''ban_ack'')]) # rest"
proof -
  define uid where "uid = or_js (get_prop msg ''userId'') JNull"
  define ipv where "ipv = or_js (get_prop msg ''ip'') JNull"
  define s1 where "s1 = (if truthy (Some uid) \<and> \<not> array_includes (bans_userIds s) uid
                then s\<lparr>bans_userIds := bans_userIds s @ [uid]\<rparr> else s)"
  define s2 where "s2 = (if truthy (Some ipv) \<and> \<not> array_includes (bans_ips s1) ipv
                then s1\<lparr>bans_ips := bans_ips s1 @ [ipv]\<rparr> else s1)"
  define s3 where "s3 = send userId (obj [(''type'', Some (JStr ''ban_ack''))]) s2"
  define s4 where "s4 = (case uid of
                  JStr u \<Rightarrow>
                    if u \<noteq> [] \<and> map_of (activeConnections s3) u \<noteq> None
                    then close u
                           (send u (obj [(''type'', Some (JStr ''banned'')),
                                         (''reason'', Some (JStr ''You were banned by admin.''))]) s3)
                    else s3
                | _ \<Rightarrow> s3)"
  have b: "ban_user userId msg s = fold (drop_ip ipv) (map fst (wss_clients s4)) s4"
    unfolding ban_user_def Let_def s4_def s3_def s2_def s1_def uid_def ipv_def ..
  have 2: "sent s2 = sent s" by (simp add: s2_def s1_def)
  have 3: "sent s3 = sent s @ [(userId, JObj [(''type'', JStr ''ban_ack'')])]"
    by (simp add: s3_def send_defs 2)
  have "\<exists>r4. sent s4 = sent s3 @ r4"
    by (cases uid) (simp_all add: s4_def close_simps send_def)
  then obtain r4 where 4: "sent s4 = sent s3 @ r4" by blast
  obtain r5 where "sent (fold (drop_ip ipv) (map fst (wss_clients s4)) s4) = sent s4 @ r5"
    using fold_drop_ip_sent by blast
  then show ?thesis unfolding b using 3 4 by simp
qed

text \<open>What holds of the two ban operations whoever is connected: a string, number or
  boolean already in a list is not added to it again (an array or object is never found in
  a list and is always added), unban filters the lists and touches no socket.\<close>

lemma ban_user_idempotent:
  "(array_includes (bans_userIds s) (or_js (get_prop msg ''userId'') JNull)
      \<longrightarrow> bans_userIds (ban_user userId msg s) = bans_userIds s)
   \<and> (array_includes (bans_ips s) (or_js (get_prop msg ''ip'') JNull)
      \<longrightarrow> bans_ips (ban_user userId msg s) = bans_ips s)"
  by (simp add: ban_user_bans_userIds ban_user_bans_ips)

lemma unban_user_effect:
  "bans_userIds (unban_user userId msg s)
   = (if truthy (Some (or_js (get_prop msg ''userId'') JNull))
      then filter (\<lambda>x. \<not> strict_eq x (or_js (get_prop msg ''userId'') JNull)) (bans_userIds s)
      else bans_userIds s)
   \<and> bans_ips (unban_user userId msg s)
   = (if truthy (Some (or_js (get_prop msg ''ip'') JNull))
      then filter (\<lambda>x. \<not> strict_eq x (or_js (get_prop msg ''ip'') JNull)) (bans_ips s)
      else bans_ips s)
   \<and> sockets (unban_user userId msg s) = sockets s
   \<and> sent (unban_user userId msg s) = sent s @ [(userId, JObj [(''type'', JStr ''unban_ack'')])]"
  by (simp add: unban_user_def Let_def send_defs)

text \<open>With a configured secret, a frame of an admin kind whose adminKey is absent or is not
  that string changes nothing and is not answered.\<close>

lemma unauthorized_admin_frame_ignored:
  assumes "ADMIN_KEY s = Some k" and "get_prop msg ''adminKey'' \<noteq> Some (JStr k)"
    and "get_prop msg ''type'' = Some (JStr kind)"
    and "kind \<in> {''get_user_count'', ''get_reports'', ''get_bans'', ''ban_user'', ''unban_user''}"
  shows "on_message toLowerCase now userId msg s = s"
proof -
  have "\<not> authorized msg s"
    using assms(1,2) by (auto simp: authorized_def split: option.splits json.splits)
  then show ?thesis using assms(3,4) by (auto simp: on_message_def)
qed

lemma unshift_pop_5000:
  "length rs \<le> 5000 \<Longrightarrow> length (unshift_pop 5000 e rs) \<le> 5000
     \<and> unshift_pop 5000 e rs = (if length rs < 5000 then e # rs else e # butlast rs)"
  by (cases rs) (auto simp: unshift_pop_def)

section \<open>C1: the pair table does not stay symmetric\<close>

text \<open>
  C1 asks that after every sequence of events the pair table is symmetric, and that
  disconnectPair removes both entries of a pair. disconnectPair deletes the partner's entry
  only inside the test that the partner's socket is OPEN. Here a and b are paired, b is
  banned (its socket is CLOSING, its close event not yet delivered) and a leaves the chat:
  the entry of a is deleted, the entry of b still names a. When a is then paired with a new
  client c and the close event of b arrives, disconnectPair for b deletes the entry of a,
  and c is left with a partner that has no entry.
\<close>

theorem C1_disconnectPair_leaves_partner_entry:
  "activeConnections (run ascii_toLowerCase boot ban_then_leave) = [(''b'', ''a'')]
   \<and> \<not> symmetric (activeConnections (run ascii_toLowerCase boot ban_then_leave))
   \<and> activeConnections (run ascii_toLowerCase boot rematch_then_close) = [(''c'', ''a'')]
   \<and> \<not> symmetric (activeConnections (run ascii_toLowerCase boot rematch_then_close))"
  unfolding boot_def ban_then_leave_def pair_a_b_def two_clients_def find_partner_frame_def
    ban_b_frame_def rematch_then_close_def by code_simp

section \<open>C2: a message with a blocked word\<close>

text \<open>
  C2 says that every send_message frame whose text contains, in any letter case, an entry of
  the blocked-word set is answered with a warning and a report and is not relayed.
  containsBadWord skips an empty entry (\<open>w && lower.includes(w)\<close>), and the send_message case
  returns on a falsy text before it looks at the words. With the empty string in the set,
  the text hello contains an entry and is relayed to the partner, without warning or report;
  with the word 0 in the set, the text 0 (a number, falsy) contains an entry and the frame
  has no effect at all.
\<close>

theorem C2_empty_word_counterexample:
  "loadBadWordsSet ascii_toLowerCase (Some (JArr [JStr '''']))
     = Some (BAD_WORDS (run ascii_toLowerCase boot_empty_word pair_a_b))
   \<and> String_js (JStr ''hello'') = Some ''hello''
   \<and> includes_js (ascii_toLowerCase ''hello'') (ascii_toLowerCase '''')
   \<and> sent (on_message ascii_toLowerCase ''t3'' ''a'' hello_frame
             (run ascii_toLowerCase boot_empty_word pair_a_b))
     = sent (run ascii_toLowerCase boot_empty_word pair_a_b)
       @ [(''b'', JObj [(''type'', JStr ''message''), (''text'', JStr ''hello'')])]
   \<and> reports (on_message ascii_toLowerCase ''t3'' ''a'' hello_frame
                (run ascii_toLowerCase boot_empty_word pair_a_b)) = []
   \<and> loadBadWordsSet ascii_toLowerCase (Some (JArr [JStr ''0'']))
     = Some (BAD_WORDS (run ascii_toLowerCase boot_zero_word pair_a_b))
   \<and> String_js (JNum ''0'') = Some ''0''
   \<and> includes_js (ascii_toLowerCase ''0'') (ascii_toLowerCase ''0'')
   \<and> on_message ascii_toLowerCase ''t3'' ''a'' zero_frame
        (run ascii_toLowerCase boot_zero_word pair_a_b)
     = run ascii_toLowerCase boot_zero_word pair_a_b"
proof -
  have z: "on_message ascii_toLowerCase ''t3'' ''a'' zero_frame s = s" for s
    by (simp add: on_message_def zero_frame_def)
  have "loadBadWordsSet ascii_toLowerCase (Some (JArr [JStr '''']))
     = Some (BAD_WORDS (run ascii_toLowerCase boot_empty_word pair_a_b))
   \<and> String_js (JStr ''hello'') = Some ''hello''
   \<and> includes_js (ascii_toLowerCase ''hello'') (ascii_toLowerCase '''')
   \<and> sent (on_message ascii_toLowerCase ''t3'' ''a'' hello_frame
             (run ascii_toLowerCase boot_empty_word pair_a_b))
     = sent (run ascii_toLowerCase boot_empty_word pair_a_b)
       @ [(''b'', JObj [(''type'', JStr ''message''), (''text'', JStr ''hello'')])]
   \<and> reports (on_message ascii_toLowerCase ''t3'' ''a'' hello_frame
                (run ascii_toLowerCase boot_empty_word pair_a_b)) = []
   \<and> loadBadWordsSet ascii_toLowerCase (Some (JArr [JStr ''0'']))
     = Some (BAD_WORDS (run ascii_toLowerCase boot_zero_word pair_a_b))
   \<and> String_js (JNum ''0'') = Some ''0''
   \<and> includes_js (ascii_toLowerCase ''0'') (ascii_toLowerCase ''0'')"
    by code_simp
  then show ?thesis using z by blast
qed

text \<open>
  C2 as amended: the text of a send_message frame is not falsy and has a string form; that
  form, lowercased, contains the lowercased string form of an entry of the word list of
  badwords.json, and this lowercased entry is not empty. Then the frame is not relayed: the
  only call of send is one warning to the sender, one report is put at the front of the log
  (the oldest entry leaves when the log held 1000 or more), the report names the sender, the
  sender's partner (null without one) and the text, and nothing else of the state changes.
\<close>

theorem C2_blocked_message_warned_and_reported:
  assumes "get_prop msg ''type'' = Some (JStr ''send_message'')"
    and "get_prop msg ''text'' = Some text"
    and "truthy (Some text)" and "String_js text = Some str"
    and "loadBadWordsSet toLowerCase (Some (JArr ws)) = Some (BAD_WORDS s)"
    and "x \<in> set ws" and "String_js x = Some w"
    and "toLowerCase w \<noteq> []"
    and "includes_js (toLowerCase str) (toLowerCase w)"
  shows "on_message toLowerCase now userId msg s
         = s\<lparr>sent := sent s @ [(userId, JObj [(''type'', JStr ''warning''),
                                               (''text'', JStr warning_text)])],
              reports := (if 1000 \<le> length (reports s)
                          then auto_report now userId text s # butlast (reports s)
                          else auto_report now userId text s # reports s)\<rparr>
       \<and> get_prop (auto_report now userId text s) ''reporterId'' = Some (JStr userId)
       \<and> get_prop (auto_report now userId text s) ''reportedId''
         = Some (case map_of (activeConnections s) userId of
                   None \<Rightarrow> JNull
                 | Some partnerId \<Rightarrow> if partnerId = [] then JNull else JStr partnerId)
       \<and> get_prop (auto_report now userId text s) ''message'' = Some text"
proof -
  have bad: "containsBadWord toLowerCase (BAD_WORDS s) (Some text) = Some True"
    using assms(3-9) by (rule containsBadWord_loaded)
  have "on_message toLowerCase now userId msg s
        = (send userId (obj [(''type'', Some (JStr ''warning'')),
                             (''text'', Some (JStr warning_text))]) s)
            \<lparr>reports := unshift_pop 1000 (auto_report now userId text s) (reports s)\<rparr>"
    using assms(1,2,3) bad by (auto simp: on_message_def)
  then show ?thesis
    by (auto simp: unshift_pop_1000 send_defs auto_report_def split: option.splits)
qed

theorem C2_blocked_message_witness:
  "get_prop toxic_frame ''type'' = Some (JStr ''send_message'')
   \<and> get_prop toxic_frame ''text'' = Some (JStr ''You IDIOT!'')
   \<and> truthy (Some (JStr ''You IDIOT!''))
   \<and> String_js (JStr ''You IDIOT!'') = Some ''You IDIOT!''
   \<and> loadBadWordsSet ascii_toLowerCase (Some (JArr [JStr ''Idiot'']))
     = Some (BAD_WORDS (run ascii_toLowerCase boot pair_a_b))
   \<and> JStr ''Idiot'' \<in> set [JStr ''Idiot'']
   \<and> String_js (JStr ''Idiot'') = Some ''Idiot''
   \<and> ascii_toLowerCase ''Idiot'' \<noteq> []
   \<and> includes_js (ascii_toLowerCase ''You IDIOT!'') (ascii_toLowerCase ''Idiot'')
   \<and> sent (on_message ascii_toLowerCase ''t3'' ''a'' toxic_frame
             (run ascii_toLowerCase boot pair_a_b))
     = sent (run ascii_toLowerCase boot pair_a_b)
       @ [(''a'', JObj [(''type'', JStr ''warning''), (''text'', JStr warning_text)])]
   \<and> reports (on_message ascii_toLowerCase ''t3'' ''a'' toxic_frame
                (run ascii_toLowerCase boot pair_a_b))
     = [JObj [(''reporterId'', JStr ''a''), (''reportedId'', JStr ''b''),
              (''reportedIp'', JStr ''10.0.0.1''),
              (''reason'', JStr ''Auto moderation: toxic message''),
              (''message'', JStr ''You IDIOT!''), (''time'', JStr ''t3'')]]
   \<and> String_js (JArr [JNum ''7'', JNull, JStr ''IDIOTS'']) = Some ''7,,IDIOTS''
   \<and> includes_js (ascii_toLowerCase ''7,,IDIOTS'') (ascii_toLowerCase ''Idiot'')
   \<and> sent (on_message ascii_toLowerCase ''t3'' ''a'' toxic_array_frame
             (run ascii_toLowerCase boot pair_a_b))
     = sent (run ascii_toLowerCase boot pair_a_b)
       @ [(''a'', JObj [(''type'', JStr ''warning''), (''text'', JStr warning_text)])]"
proof -
  let ?s = "run ascii_toLowerCase boot pair_a_b"
  have h1: "get_prop toxic_frame ''type'' = Some (JStr ''send_message'')"
    by (simp add: toxic_frame_def)
  have h2: "get_prop toxic_frame ''text'' = Some (JStr ''You IDIOT!'')"
    by (simp add: toxic_frame_def)
  have h3: "truthy (Some (JStr ''You IDIOT!''))" by simp
  have h4: "String_js (JStr ''You IDIOT!'') = Some ''You IDIOT!''" by simp
  have h5: "loadBadWordsSet ascii_toLowerCase (Some (JArr [JStr ''Idiot''])) = Some (BAD_WORDS ?s)"
    by code_simp
  have h6: "JStr ''Idiot'' \<in> set [JStr ''Idiot'']" by simp
  have h7: "String_js (JStr ''Idiot'') = Some ''Idiot''" by simp
  have h8: "ascii_toLowerCase ''Idiot'' \<noteq> []" by (simp add: ascii_toLowerCase_def)
  have h9: "includes_js (ascii_toLowerCase ''You IDIOT!'') (ascii_toLowerCase ''Idiot'')"
    by code_simp
  have g1: "get_prop toxic_array_frame ''type'' = Some (JStr ''send_message'')"
    by (simp add: toxic_array_frame_def)
  have g2: "get_prop toxic_array_frame ''text''
            = Some (JArr [JNum ''7'', JNull, JStr ''IDIOTS''])"
    by (simp add: toxic_array_frame_def)
  have g3: "truthy (Some (JArr [JNum ''7'', JNull, JStr ''IDIOTS'']))" by simp
  have g4: "String_js (JArr [JNum ''7'', JNull, JStr ''IDIOTS'']) = Some ''7,,IDIOTS''"
    by simp
  have g9: "includes_js (ascii_toLowerCase ''7,,IDIOTS'') (ascii_toLowerCase ''Idiot'')"
    by code_simp
  have r: "reports ?s = []" by code_simp
  have a: "auto_report ''t3'' ''a'' (JStr ''You IDIOT!'') ?s
           = JObj [(''reporterId'', JStr ''a''), (''reportedId'', JStr ''b''),
                   (''reportedIp'', JStr ''10.0.0.1''),
                   (''reason'', JStr ''Auto moderation: toxic message''),
                   (''message'', JStr ''You IDIOT!''), (''time'', JStr ''t3'')]"
    by code_simp
  from C2_blocked_message_warned_and_reported
         [OF h1 h2 h3 h4 h5 h6 h7 h8 h9, where now = "''t3''" and userId = "''a''"]
  have c1: "on_message ascii_toLowerCase ''t3'' ''a'' toxic_frame ?s
        = ?s\<lparr>sent := sent ?s
                     @ [(''a'', JObj [(''type'', JStr ''warning''), (''text'', JStr warning_text)])],
             reports := [auto_report ''t3'' ''a'' (JStr ''You IDIOT!'') ?s]\<rparr>"
    by (simp add: r)
  from C2_blocked_message_warned_and_reported
         [OF g1 g2 g3 g4 h5 h6 h7 h8 g9, where now = "''t3''" and userId = "''a''"]
  have c2: "sent (on_message ascii_toLowerCase ''t3'' ''a'' toxic_array_frame ?s)
        = sent ?s
          @ [(''a'', JObj [(''type'', JStr ''warning''), (''text'', JStr warning_text)])]"
    by simp
  have c1s: "sent (on_message ascii_toLowerCase ''t3'' ''a'' toxic_frame ?s)
        = sent ?s
          @ [(''a'', JObj [(''type'', JStr ''warning''), (''text'', JStr warning_text)])]"
    by (simp add: c1)
  have c1r: "reports (on_message ascii_toLowerCase ''t3'' ''a'' toxic_frame ?s)
        = [JObj [(''reporterId'', JStr ''a''), (''reportedId'', JStr ''b''),
                 (''reportedIp'', JStr ''10.0.0.1''),
                 (''reason'', JStr ''Auto moderation: toxic message''),
                 (''message'', JStr ''You IDIOT!''), (''time'', JStr ''t3'')]]"
    by (simp add: c1 a)
  show ?thesis using h1 h2 h3 h4 h5 h6 h7 h8 h9 g4 g9 c1s c1r c2 by blast
qed

section \<open>C3: two clients ask for a partner\<close>

text \<open>
  C3: no client is waiting, A and B are two different identities without an entry in the
  pair table and the socket of A is open. When A and then B send find_partner, the calls of
  send are, in order, searching to A, partner_found with partnerId A to B and partner_found
  with partnerId B to A; no partner_found object has a from property; afterwards A and B
  are each other's partner and the waiting slot is empty.
\<close>

theorem C3_two_clients_are_paired:
  assumes "get_prop msg ''type'' = Some (JStr ''find_partner'')"
    and "waitingUser s = None" and "A \<noteq> B"
    and "map_of (activeConnections s) A = None" and "map_of (activeConnections s) B = None"
    and "readyState_of s A = OPEN"
  shows "sent (on_message toLowerCase tB B msg (on_message toLowerCase tA A msg s))
         = sent s @ [(A, JObj [(''type'', JStr ''searching'')]),
                     (B, JObj [(''type'', JStr ''partner_found''), (''partnerId'', JStr A)]),
                     (A, JObj [(''type'', JStr ''partner_found''), (''partnerId'', JStr B)])]
       \<and> get_prop (JObj [(''type'', JStr ''partner_found''), (''partnerId'', JStr A)]) ''from'' = None
       \<and> get_prop (JObj [(''type'', JStr ''partner_found''), (''partnerId'', JStr B)]) ''from'' = None
       \<and> map_of (activeConnections (on_message toLowerCase tB B msg (on_message toLowerCase tA A msg s))) A = Some B
       \<and> map_of (activeConnections (on_message toLowerCase tB B msg (on_message toLowerCase tA A msg s))) B = Some A
       \<and> waitingUser (on_message toLowerCase tB B msg (on_message toLowerCase tA A msg s)) = None
       \<and> on_message toLowerCase tB B msg (on_message toLowerCase tA A msg s)
         = s\<lparr>activeConnections := AList.update A B (AList.update B A (activeConnections s)),
              sent := sent (on_message toLowerCase tB B msg (on_message toLowerCase tA A msg s))\<rparr>"
proof -
  have "on_message toLowerCase tB B msg (on_message toLowerCase tA A msg s)
        = s\<lparr>activeConnections := AList.update A B (AList.update B A (activeConnections s)),
             sent := sent s @ [(A, JObj [(''type'', JStr ''searching'')]),
                     (B, JObj [(''type'', JStr ''partner_found''), (''partnerId'', JStr A)]),
                     (A, JObj [(''type'', JStr ''partner_found''), (''partnerId'', JStr B)])]\<rparr>"
    using assms by (auto simp: on_message_def findPartner_def send_defs readyState_of_def)
  then show ?thesis using assms(2,3) by (simp add: update_conv')
qed

theorem C3_two_clients_witness:
  "get_prop find_partner_frame ''type'' = Some (JStr ''find_partner'')
   \<and> waitingUser (run ascii_toLowerCase boot two_clients) = None \<and> ''a'' \<noteq> ''b''
   \<and> map_of (activeConnections (run ascii_toLowerCase boot two_clients)) ''a'' = None
   \<and> map_of (activeConnections (run ascii_toLowerCase boot two_clients)) ''b'' = None
   \<and> readyState_of (run ascii_toLowerCase boot two_clients) ''a'' = OPEN
   \<and> sent (on_message ascii_toLowerCase ''t2'' ''b'' find_partner_frame
              (on_message ascii_toLowerCase ''t1'' ''a'' find_partner_frame (run ascii_toLowerCase boot two_clients)))
     = sent (run ascii_toLowerCase boot two_clients)
       @ [(''a'', JObj [(''type'', JStr ''searching'')]),
          (''b'', JObj [(''type'', JStr ''partner_found''), (''partnerId'', JStr ''a'')]),
          (''a'', JObj [(''type'', JStr ''partner_found''), (''partnerId'', JStr ''b'')])]
   \<and> map_of (activeConnections (on_message ascii_toLowerCase ''t2'' ''b'' find_partner_frame
              (on_message ascii_toLowerCase ''t1'' ''a'' find_partner_frame (run ascii_toLowerCase boot two_clients)))) ''a''
     = Some ''b''"
proof -
  have h1: "get_prop find_partner_frame ''type'' = Some (JStr ''find_partner'')"
    by (simp add: find_partner_frame_def)
  have h2: "waitingUser (run ascii_toLowerCase boot two_clients) = None"
    unfolding boot_def two_clients_def by code_simp
  have h3: "''a'' \<noteq> ''b''" by simp
  have h4: "map_of (activeConnections (run ascii_toLowerCase boot two_clients)) ''a'' = None"
    unfolding boot_def two_clients_def by code_simp
  have h5: "map_of (activeConnections (run ascii_toLowerCase boot two_clients)) ''b'' = None"
    unfolding boot_def two_clients_def by code_simp
  have h6: "readyState_of (run ascii_toLowerCase boot two_clients) ''a'' = OPEN"
    unfolding boot_def two_clients_def by code_simp
  show ?thesis
    using C3_two_clients_are_paired [OF h1 h2 h3 h4 h5 h6, where tB = "''t2''" and tA = "''t1''"
            and toLowerCase = ascii_toLowerCase] h1 h2 h4 h5 h6
    by simp
qed

section \<open>C4: a repeated find_partner\<close>

text \<open>
  C4 says that find_partner from the occupant of the waiting slot is a no-op. The guard of
  findPartner returns only for an identity with a pair-table entry; the occupant of the
  waiting slot reaches the else branch, which stores the same slot again and sends another
  searching: after a has asked once, a second find_partner of a adds a notification.
\<close>

theorem C4_waiting_occupant_counterexample:
  "waitingUser (run ascii_toLowerCase boot a_waits) = Some ''a''
   \<and> sent (on_message ascii_toLowerCase ''t2'' ''a'' find_partner_frame (run ascii_toLowerCase boot a_waits))
     = sent (run ascii_toLowerCase boot a_waits) @ [(''a'', JObj [(''type'', JStr ''searching'')])]
   \<and> sent (on_message ascii_toLowerCase ''t2'' ''a'' find_partner_frame (run ascii_toLowerCase boot a_waits))
     \<noteq> sent (run ascii_toLowerCase boot a_waits)"
  unfolding boot_def find_partner_frame_def a_waits_def two_clients_def by code_simp

text \<open>
  C4 as amended: find_partner from an identity that has a pair-table entry changes nothing;
  find_partner from the occupant of the waiting slot (which has no entry) leaves the waiting
  slot and the pair table as they are and sends one searching notification to the requester.
\<close>

theorem C4_repeated_find_partner:
  assumes "get_prop msg ''type'' = Some (JStr ''find_partner'')"
  shows "(map_of (activeConnections s) userId \<noteq> None \<longrightarrow> on_message toLowerCase now userId msg s = s)
       \<and> (map_of (activeConnections s) userId = None \<and> waitingUser s = Some userId \<longrightarrow>
            on_message toLowerCase now userId msg s
            = s\<lparr>sent := sent s @ [(userId, JObj [(''type'', JStr ''searching'')])]\<rparr>)"
proof -
  have ty: "msg \<noteq> JNull" using assms by auto
  have 1: "on_message toLowerCase now userId msg s = findPartner userId s"
    using assms ty by (simp add: on_message_def)
  have 2: "s\<lparr>waitingUser := Some userId\<rparr> = s" if "waitingUser s = Some userId"
  proof -
    have "s\<lparr>waitingUser := waitingUser s\<rparr> = s" by simp
    then show ?thesis unfolding that .
  qed
  show ?thesis
    unfolding 1 using 2 by (auto simp: findPartner_def send_defs)
qed

theorem C4_repeated_find_partner_witness:
  "get_prop find_partner_frame ''type'' = Some (JStr ''find_partner'')
   \<and> map_of (activeConnections (run ascii_toLowerCase boot pair_a_b)) ''a'' \<noteq> None
   \<and> on_message ascii_toLowerCase ''t3'' ''a'' find_partner_frame (run ascii_toLowerCase boot pair_a_b) = run ascii_toLowerCase boot pair_a_b
   \<and> map_of (activeConnections (run ascii_toLowerCase boot a_waits)) ''a'' = None
   \<and> waitingUser (run ascii_toLowerCase boot a_waits) = Some ''a''
   \<and> on_message ascii_toLowerCase ''t2'' ''a'' find_partner_frame (run ascii_toLowerCase boot a_waits)
     = (run ascii_toLowerCase boot a_waits)
         \<lparr>sent := sent (run ascii_toLowerCase boot a_waits) @ [(''a'', JObj [(''type'', JStr ''searching'')])]\<rparr>"
proof -
  have h: "get_prop find_partner_frame ''type'' = Some (JStr ''find_partner'')"
    by (simp add: find_partner_frame_def)
  have p: "map_of (activeConnections (run ascii_toLowerCase boot pair_a_b)) ''a'' \<noteq> None"
    unfolding boot_def pair_a_b_def two_clients_def find_partner_frame_def by code_simp
  have w1: "map_of (activeConnections (run ascii_toLowerCase boot a_waits)) ''a'' = None"
    unfolding boot_def a_waits_def two_clients_def find_partner_frame_def by code_simp
  have w2: "waitingUser (run ascii_toLowerCase boot a_waits) = Some ''a''"
    unfolding boot_def a_waits_def two_clients_def find_partner_frame_def by code_simp
  show ?thesis
    using C4_repeated_find_partner [OF h, where s = "run ascii_toLowerCase boot pair_a_b"
            and userId = "''a''" and now = "''t3''" and toLowerCase = ascii_toLowerCase]
          C4_repeated_find_partner [OF h, where s = "run ascii_toLowerCase boot a_waits"
            and userId = "''a''" and now = "''t2''" and toLowerCase = ascii_toLowerCase]
          h p w1 w2
    by blast
qed

section \<open>C5: the cap of the report log\<close>

text \<open>
  C5 asks for one cap of 5000 on the report log, for user reports and automatic reports
  alike, with an eviction only when the log exceeds it. The report_user case pops past 5000
  entries; the automatic report of the send_message case pops past 1000. On a log of 1000
  entries a blocked message evicts the oldest entry and the log stays at 1000, while a user
  report on the same log evicts nothing and the log grows to 1001.
\<close>

theorem C5_auto_report_evicts_at_1000:
  "length (reports full_log) = 1000
   \<and> last (reports full_log) = JStr ''oldest''
   \<and> reports (run ascii_toLowerCase full_log toxic_events)
     = JObj [(''reporterId'', JStr ''a''), (''reportedId'', JNull), (''reportedIp'', JNull),
             (''reason'', JStr ''Auto moderation: toxic message''),
             (''message'', JStr ''You IDIOT!''), (''time'', JStr ''t1'')]
       # replicate 999 JNull
   \<and> length (reports (run ascii_toLowerCase full_log toxic_events)) = 1000
   \<and> reports (run ascii_toLowerCase full_log report_events)
     = JObj [(''reporterId'', JStr ''a''), (''reportedId'', JNull), (''reportedIp'', JNull),
             (''reason'', JStr ''user_report''), (''message'', JNull), (''time'', JStr ''t1'')]
       # reports full_log
   \<and> length (reports (run ascii_toLowerCase full_log report_events)) = 1001"
proof -
  have c: "containsBadWord ascii_toLowerCase [''idiot''] (Some (JStr ''You IDIOT!''))
           = Some True"
    by code_simp
  show ?thesis
    unfolding full_log_def toxic_events_def toxic_frame_def report_events_def
    by (simp add: c run_def init_def on_connection_def on_message_def live_def send_defs
          array_includes_def unshift_pop_def auto_report_def user_report_def Let_def
          butlast_append)
qed

section \<open>C6: admin frames without a credential\<close>

text \<open>
  C6 asks that an admin frame whose adminKey is missing is neither answered nor acted on.
  The test is \<open>msg.adminKey === process.env.ADMIN_KEY\<close>: when ADMIN_KEY is not set, both
  sides are undefined for a frame without adminKey. Here the server runs without ADMIN_KEY
  and a sends ban_user for b without a credential: b is added to the banned ids and a
  receives ban_ack.
\<close>

theorem C6_missing_credential_accepted_without_key:
  "ADMIN_KEY boot_no_key = None
   \<and> get_prop ban_b_no_key_frame ''adminKey'' = None
   \<and> bans_userIds (run ascii_toLowerCase boot_no_key two_clients) = []
   \<and> bans_userIds (run ascii_toLowerCase boot_no_key (two_clients @ [Message ''a'' ''t1'' ban_b_no_key_frame]))
     = [JStr ''b'']
   \<and> sent (run ascii_toLowerCase boot_no_key (two_clients @ [Message ''a'' ''t1'' ban_b_no_key_frame]))
     = sent (run ascii_toLowerCase boot_no_key two_clients) @ [(''a'', JObj [(''type'', JStr ''ban_ack'')])]"
  unfolding boot_no_key_def ban_b_no_key_frame_def two_clients_def by code_simp

section \<open>C7: banning an identity that is not paired\<close>

text \<open>
  C7 asks that an authorized ban_user closes every open session of the banned identity,
  after a banned notification. The ban_user case looks the identity up in
  activeConnections, which holds paired identities only. Here b is connected and not
  paired, and a bans b with the right key: b is added to the banned ids, a receives ban_ack,
  b receives nothing, the socket of b stays OPEN, and the next find_partner of b is served.
\<close>

theorem C7_unpaired_identity_not_closed:
  "authorized ban_b_frame (run ascii_toLowerCase boot two_clients)
   \<and> readyState_of (run ascii_toLowerCase boot two_clients) ''b'' = OPEN
   \<and> bans_userIds (run ascii_toLowerCase boot ban_idle_b) = [JStr ''b'']
   \<and> sent (run ascii_toLowerCase boot ban_idle_b)
     = sent (run ascii_toLowerCase boot two_clients) @ [(''a'', JObj [(''type'', JStr ''ban_ack'')])]
   \<and> readyState_of (run ascii_toLowerCase boot ban_idle_b) ''b'' = OPEN
   \<and> sent (run ascii_toLowerCase boot (ban_idle_b @ [Message ''b'' ''t2'' find_partner_frame]))
     = sent (run ascii_toLowerCase boot ban_idle_b) @ [(''b'', JObj [(''type'', JStr ''searching'')])]"
  unfolding boot_def find_partner_frame_def ban_b_frame_def two_clients_def ban_idle_b_def
  by code_simp

section \<open>C8: a stale waiting slot\<close>

text \<open>
  C8: the waiting slot holds an identity other than the requester, the socket of that
  identity is not OPEN, and the requester has no pair-table entry (a requester with an entry
  is stopped by the guard of C4). Then find_partner puts the requester in the waiting slot,
  sends it one searching notification and nothing else, and leaves the pair table as it is.
\<close>

theorem C8_stale_occupant_is_displaced:
  assumes "get_prop msg ''type'' = Some (JStr ''find_partner'')"
    and "waitingUser s = Some w" and "w \<noteq> userId"
    and "readyState_of s w \<noteq> OPEN"
    and "map_of (activeConnections s) userId = None"
  shows "on_message toLowerCase now userId msg s
         = s\<lparr>waitingUser := Some userId,
              sent := sent s @ [(userId, JObj [(''type'', JStr ''searching'')])]\<rparr>"
  using assms by (auto simp: on_message_def findPartner_def send_defs)

theorem C8_stale_occupant_witness:
  "get_prop find_partner_frame ''type'' = Some (JStr ''find_partner'')
   \<and> waitingUser (run ascii_toLowerCase boot stale_wait) = Some ''a'' \<and> ''a'' \<noteq> ''b''
   \<and> readyState_of (run ascii_toLowerCase boot stale_wait) ''a'' \<noteq> OPEN
   \<and> map_of (activeConnections (run ascii_toLowerCase boot stale_wait)) ''b'' = None
   \<and> on_message ascii_toLowerCase ''t3'' ''b'' find_partner_frame (run ascii_toLowerCase boot stale_wait)
     = (run ascii_toLowerCase boot stale_wait)
         \<lparr>waitingUser := Some ''b'',
          sent := sent (run ascii_toLowerCase boot stale_wait) @ [(''b'', JObj [(''type'', JStr ''searching'')])]\<rparr>"
proof -
  have h1: "get_prop find_partner_frame ''type'' = Some (JStr ''find_partner'')"
    by (simp add: find_partner_frame_def)
  have h2: "waitingUser (run ascii_toLowerCase boot stale_wait) = Some ''a''"
    unfolding boot_def stale_wait_def a_waits_def two_clients_def find_partner_frame_def
      ban_ip_frame_def by code_simp
  have h3: "''a'' \<noteq> ''b''" by simp
  have h4: "readyState_of (run ascii_toLowerCase boot stale_wait) ''a'' \<noteq> OPEN"
    unfolding boot_def stale_wait_def a_waits_def two_clients_def find_partner_frame_def
      ban_ip_frame_def by code_simp
  have h5: "map_of (activeConnections (run ascii_toLowerCase boot stale_wait)) ''b'' = None"
    unfolding boot_def stale_wait_def a_waits_def two_clients_def find_partner_frame_def
      ban_ip_frame_def by code_simp
  show ?thesis
    using C8_stale_occupant_is_displaced [OF h1 h2 h3 h4 h5, where now = "''t3''"
            and toLowerCase = ascii_toLowerCase] h1 h2 h3 h4 h5
    by blast
qed

section \<open>C9: relay without a reachable partner\<close>

text \<open>
  C9: when the identity has no pair-table entry, or its entry has an empty partnerId, or its
  partner has no entry or a socket that is not OPEN, each of sendToPartner, notifyTyping and
  forwardToPartner returns the state it was given: nothing is sent and nothing changes. The
  three functions have no failing path.
\<close>

theorem C9_relay_without_partner_is_noop:
  assumes "map_of (activeConnections s) userId = None
           \<or> map_of (activeConnections s) userId = Some []
           \<or> (\<exists>p. map_of (activeConnections s) userId = Some p
                  \<and> (map_of (activeConnections s) p = None \<or> readyState_of s p \<noteq> OPEN))"
  shows "sendToPartner userId text s = s
         \<and> notifyTyping userId isTyping s = s
         \<and> forwardToPartner userId message s = s"
  using assms by (auto simp: relay_defs split: option.splits)

theorem C9_relay_without_partner_witness:
  "map_of (activeConnections (run ascii_toLowerCase boot b_banned)) ''a'' = Some ''b''
   \<and> readyState_of (run ascii_toLowerCase boot b_banned) ''b'' \<noteq> OPEN
   \<and> sendToPartner ''a'' (Some (JStr ''hello'')) (run ascii_toLowerCase boot b_banned) = run ascii_toLowerCase boot b_banned
   \<and> notifyTyping ''a'' (Some (JBool True)) (run ascii_toLowerCase boot b_banned) = run ascii_toLowerCase boot b_banned
   \<and> forwardToPartner ''a'' [(''type'', JStr ''video_offer'')] (run ascii_toLowerCase boot b_banned)
     = run ascii_toLowerCase boot b_banned
   \<and> map_of (activeConnections (run ascii_toLowerCase boot two_clients)) ''a'' = None
   \<and> sendToPartner ''a'' (Some (JStr ''hello'')) (run ascii_toLowerCase boot two_clients) = run ascii_toLowerCase boot two_clients"
proof -
  have h1: "map_of (activeConnections (run ascii_toLowerCase boot b_banned)) ''a'' = Some ''b''"
    unfolding boot_def b_banned_def pair_a_b_def two_clients_def find_partner_frame_def
      ban_b_frame_def by code_simp
  have h2: "readyState_of (run ascii_toLowerCase boot b_banned) ''b'' \<noteq> OPEN"
    unfolding boot_def b_banned_def pair_a_b_def two_clients_def find_partner_frame_def
      ban_b_frame_def by code_simp
  have h3: "map_of (activeConnections (run ascii_toLowerCase boot two_clients)) ''a'' = None"
    unfolding boot_def two_clients_def by code_simp
  have d1: "map_of (activeConnections (run ascii_toLowerCase boot b_banned)) ''a'' = None
           \<or> map_of (activeConnections (run ascii_toLowerCase boot b_banned)) ''a'' = Some []
           \<or> (\<exists>p. map_of (activeConnections (run ascii_toLowerCase boot b_banned)) ''a'' = Some p
                  \<and> (map_of (activeConnections (run ascii_toLowerCase boot b_banned)) p = None
                      \<or> readyState_of (run ascii_toLowerCase boot b_banned) p \<noteq> OPEN))"
    using h1 h2 by blast
  have d2: "map_of (activeConnections (run ascii_toLowerCase boot two_clients)) ''a'' = None
           \<or> map_of (activeConnections (run ascii_toLowerCase boot two_clients)) ''a'' = Some []
           \<or> (\<exists>p. map_of (activeConnections (run ascii_toLowerCase boot two_clients)) ''a'' = Some p
                  \<and> (map_of (activeConnections (run ascii_toLowerCase boot two_clients)) p = None
                      \<or> readyState_of (run ascii_toLowerCase boot two_clients) p \<noteq> OPEN))"
    using h3 by blast
  show ?thesis
    using C9_relay_without_partner_is_noop [OF d1, of "Some (JStr ''hello'')"
            "Some (JBool True)" "[(''type'', JStr ''video_offer'')]"]
          C9_relay_without_partner_is_noop [OF d2, of "Some (JStr ''hello'')"
            "Some (JBool True)" "[(''type'', JStr ''video_offer'')]"]
          h1 h2 h3
    by blast
qed

section \<open>C10: no ADMIN_KEY and no adminKey\<close>

text \<open>
  C10: when ADMIN_KEY is not set and the frame has no adminKey property, the authorization
  test succeeds, and each admin kind is carried out and answered: get_user_count,
  get_reports and get_bans send their answer to the requester; ban_user adds the given id
  and address to the ban lists (unless already there) and sends ban_ack first; unban_user
  filters the lists and sends unban_ack.
\<close>

theorem C10_no_key_no_credential_is_authorized:
  assumes "ADMIN_KEY s = None" and "get_prop msg ''adminKey'' = None"
  shows "authorized msg s
    \<and> (get_prop msg ''type'' = Some (JStr ''get_user_count'') \<longrightarrow>
         on_message toLowerCase now userId msg s
         = s\<lparr>sent := sent s @ [(userId, JObj [(''type'', JStr ''user_count''),
                                               (''count'', JNum (digits (length (wss_clients s))))])]\<rparr>)
    \<and> (get_prop msg ''type'' = Some (JStr ''get_reports'') \<longrightarrow>
         on_message toLowerCase now userId msg s
         = s\<lparr>sent := sent s @ [(userId, JObj [(''type'', JStr ''reports''),
                                               (''reports'', JArr (reports s))])]\<rparr>)
    \<and> (get_prop msg ''type'' = Some (JStr ''get_bans'') \<longrightarrow>
         on_message toLowerCase now userId msg s
         = s\<lparr>sent := sent s @ [(userId, JObj [(''type'', JStr ''bans''),
                                               (''bannedIPs'', JArr (bans_ips s)),
                                               (''bannedUserIds'', JArr (bans_userIds s))])]\<rparr>)
    \<and> (get_prop msg ''type'' = Some (JStr ''ban_user'') \<longrightarrow>
         on_message toLowerCase now userId msg s = ban_user userId msg s
         \<and> (\<exists>rest. sent (ban_user userId msg s)
                     = sent s @ (userId, JObj [(''type'', JStr ''ban_ack'')]) # rest)
         \<and> bans_userIds (ban_user userId msg s)
           = (if truthy (Some (or_js (get_prop msg ''userId'') JNull))
                 \<and> \<not> array_includes (bans_userIds s) (or_js (get_prop msg ''userId'') JNull)
              then bans_userIds s @ [or_js (get_prop msg ''userId'') JNull]
              else bans_userIds s)
         \<and> bans_ips (ban_user userId msg s)
           = (if truthy (Some (or_js (get_prop msg ''ip'') JNull))
                 \<and> \<not> array_includes (bans_ips s) (or_js (get_prop msg ''ip'') JNull)
              then bans_ips s @ [or_js (get_prop msg ''ip'') JNull]
              else bans_ips s))
    \<and> (get_prop msg ''type'' = Some (JStr ''unban_user'') \<longrightarrow>
         on_message toLowerCase now userId msg s = unban_user userId msg s
         \<and> sent (unban_user userId msg s)
           = sent s @ [(userId, JObj [(''type'', JStr ''unban_ack'')])]
         \<and> bans_userIds (unban_user userId msg s)
           = (if truthy (Some (or_js (get_prop msg ''userId'') JNull))
              then filter (\<lambda>x. \<not> strict_eq x (or_js (get_prop msg ''userId'') JNull))
                     (bans_userIds s)
              else bans_userIds s)
         \<and> bans_ips (unban_user userId msg s)
           = (if truthy (Some (or_js (get_prop msg ''ip'') JNull))
              then filter (\<lambda>x. \<not> strict_eq x (or_js (get_prop msg ''ip'') JNull)) (bans_ips s)
              else bans_ips s))"
proof -
  have a: "authorized msg s" using assms by (simp add: authorized_def)
  have 1: "get_prop msg ''type'' = Some (JStr ''get_user_count'') \<Longrightarrow>
         on_message toLowerCase now userId msg s
         = s\<lparr>sent := sent s @ [(userId, JObj [(''type'', JStr ''user_count''),
                                               (''count'', JNum (digits (length (wss_clients s))))])]\<rparr>"
    using a by (auto simp: on_message_def send_defs)
  have 2: "get_prop msg ''type'' = Some (JStr ''get_reports'') \<Longrightarrow>
         on_message toLowerCase now userId msg s
         = s\<lparr>sent := sent s @ [(userId, JObj [(''type'', JStr ''reports''),
                                               (''reports'', JArr (reports s))])]\<rparr>"
    using a by (auto simp: on_message_def send_defs)
  have 3: "get_prop msg ''type'' = Some (JStr ''get_bans'') \<Longrightarrow>
         on_message toLowerCase now userId msg s
         = s\<lparr>sent := sent s @ [(userId, JObj [(''type'', JStr ''bans''),
                                               (''bannedIPs'', JArr (bans_ips s)),
                                               (''bannedUserIds'', JArr (bans_userIds s))])]\<rparr>"
    using a by (auto simp: on_message_def send_defs)
  have 4: "get_prop msg ''type'' = Some (JStr ''ban_user'') \<Longrightarrow>
         on_message toLowerCase now userId msg s = ban_user userId msg s"
    using a by (auto simp: on_message_def)
  have 5: "get_prop msg ''type'' = Some (JStr ''unban_user'') \<Longrightarrow>
         on_message toLowerCase now userId msg s = unban_user userId msg s"
    using a by (auto simp: on_message_def)
  show ?thesis
    using a 1 2 3 4 5 ban_user_sent [of userId msg s] ban_user_bans_userIds [of userId msg s]
      ban_user_bans_ips [of userId msg s] unban_user_effect [of userId msg s]
    by blast
qed

theorem C10_no_key_no_credential_witness:
  "ADMIN_KEY (run ascii_toLowerCase boot_no_key two_clients) = None
   \<and> sent (on_message ascii_toLowerCase ''t1'' ''a'' (JObj [(''type'', JStr ''get_user_count'')])
             (run ascii_toLowerCase boot_no_key two_clients))
     = sent (run ascii_toLowerCase boot_no_key two_clients)
       @ [(''a'', JObj [(''type'', JStr ''user_count''), (''count'', JNum ''2'')])]
   \<and> sent (on_message ascii_toLowerCase ''t1'' ''a'' (JObj [(''type'', JStr ''get_reports'')])
             (run ascii_toLowerCase boot_no_key two_clients))
     = sent (run ascii_toLowerCase boot_no_key two_clients)
       @ [(''a'', JObj [(''type'', JStr ''reports''), (''reports'', JArr [])])]
   \<and> sent (on_message ascii_toLowerCase ''t1'' ''a'' (JObj [(''type'', JStr ''get_bans'')])
             (run ascii_toLowerCase boot_no_key two_clients))
     = sent (run ascii_toLowerCase boot_no_key two_clients)
       @ [(''a'', JObj [(''type'', JStr ''bans''), (''bannedIPs'', JArr []),
                        (''bannedUserIds'', JArr [])])]
   \<and> bans_userIds (on_message ascii_toLowerCase ''t1'' ''a'' ban_b_no_key_frame (run ascii_toLowerCase boot_no_key two_clients))
     = [JStr ''b'']
   \<and> sent (on_message ascii_toLowerCase ''t1'' ''a'' (JObj [(''type'', JStr ''unban_user''), (''userId'', JStr ''b'')])
             (run ascii_toLowerCase boot_no_key two_clients))
     = sent (run ascii_toLowerCase boot_no_key two_clients) @ [(''a'', JObj [(''type'', JStr ''unban_ack'')])]"
proof -
  let ?s = "run ascii_toLowerCase boot_no_key two_clients"
  have k: "ADMIN_KEY ?s = None" unfolding boot_no_key_def two_clients_def by code_simp
  have w: "digits (length (wss_clients ?s)) = ''2''"
    unfolding boot_no_key_def two_clients_def by code_simp
  have r: "reports ?s = []" unfolding boot_no_key_def two_clients_def by code_simp
  have bi: "bans_ips ?s = []" unfolding boot_no_key_def two_clients_def by code_simp
  have bu: "bans_userIds ?s = []" unfolding boot_no_key_def two_clients_def by code_simp
  have m1: "get_prop (JObj [(''type'', JStr ''get_user_count'')]) ''adminKey'' = None" by simp
  have m2: "get_prop (JObj [(''type'', JStr ''get_reports'')]) ''adminKey'' = None" by simp
  have m3: "get_prop (JObj [(''type'', JStr ''get_bans'')]) ''adminKey'' = None" by simp
  have m4: "get_prop ban_b_no_key_frame ''adminKey'' = None"
    by (simp add: ban_b_no_key_frame_def)
  have m5: "get_prop (JObj [(''type'', JStr ''unban_user''), (''userId'', JStr ''b'')])
              ''adminKey'' = None" by simp
  have t4: "get_prop ban_b_no_key_frame ''type'' = Some (JStr ''ban_user'')"
    by (simp add: ban_b_no_key_frame_def)
  have u4: "or_js (get_prop ban_b_no_key_frame ''userId'') JNull = JStr ''b''"
    by (simp add: ban_b_no_key_frame_def)
  have c1: "sent (on_message ascii_toLowerCase ''t1'' ''a'' (JObj [(''type'', JStr ''get_user_count'')]) ?s)
     = sent ?s @ [(''a'', JObj [(''type'', JStr ''user_count''), (''count'', JNum ''2'')])]"
    using C10_no_key_no_credential_is_authorized [OF k m1, where now = "''t1''"
            and userId = "''a''" and toLowerCase = ascii_toLowerCase]
    by (simp add: w)
  have c2: "sent (on_message ascii_toLowerCase ''t1'' ''a'' (JObj [(''type'', JStr ''get_reports'')]) ?s)
     = sent ?s @ [(''a'', JObj [(''type'', JStr ''reports''), (''reports'', JArr [])])]"
    using C10_no_key_no_credential_is_authorized [OF k m2, where now = "''t1''"
            and userId = "''a''" and toLowerCase = ascii_toLowerCase]
    by (simp add: r)
  have c3: "sent (on_message ascii_toLowerCase ''t1'' ''a'' (JObj [(''type'', JStr ''get_bans'')]) ?s)
     = sent ?s @ [(''a'', JObj [(''type'', JStr ''bans''), (''bannedIPs'', JArr []),
                        (''bannedUserIds'', JArr [])])]"
    using C10_no_key_no_credential_is_authorized [OF k m3, where now = "''t1''"
            and userId = "''a''" and toLowerCase = ascii_toLowerCase]
    by (simp add: bi bu)
  have c4: "bans_userIds (on_message ascii_toLowerCase ''t1'' ''a'' ban_b_no_key_frame ?s) = [JStr ''b'']"
    using C10_no_key_no_credential_is_authorized [OF k m4, where now = "''t1''"
            and userId = "''a''" and toLowerCase = ascii_toLowerCase] t4
    by (simp add: u4 bu array_includes_def)
  have c5: "sent (on_message ascii_toLowerCase ''t1'' ''a''
                    (JObj [(''type'', JStr ''unban_user''), (''userId'', JStr ''b'')]) ?s)
     = sent ?s @ [(''a'', JObj [(''type'', JStr ''unban_ack'')])]"
    using C10_no_key_no_credential_is_authorized [OF k m5, where now = "''t1''"
            and userId = "''a''" and toLowerCase = ascii_toLowerCase]
    by simp
  show ?thesis using k c1 c2 c3 c4 c5 by blast
qed

end
